theory Spec2Isabelle
  imports Main "HOL-Library.Word"
begin

section \<open>Data\<close>

text \<open>
  A Python \<open>bytes\<close> value is a list of octets. A Python \<open>str\<close> is a sequence of Unicode
  code points, so it is a list of naturals here (the 8-bit \<open>char\<close> of HOL cannot hold
  them); \<open>lit\<close> turns an ASCII literal of the source into such a string.
\<close>

type_synonym byte = "8 word"
type_synonym bytes = "byte list"
type_synonym pystr = "nat list"

definition lit :: "string \<Rightarrow> pystr" where
  "lit s = map of_char s"

text \<open>
  The three exception classes of \<open>encryption.py\<close>, and the exceptions of the standard
  library and of PyNaCl that the code catches: \<open>binascii.Error\<close>, \<open>ValueError\<close>,
  \<open>TypeError\<close>, \<open>KeyError\<close>, \<open>nacl.exceptions.CryptoError\<close> and \<open>UnicodeError\<close>. Only
  the class of an exception is modelled, not its message.
\<close>

datatype error =
    InvalidKeyError | InvalidMessageError | EncryptionError
  | BinasciiError | ValueError | TypeError | KeyError | CryptoError | UnicodeError

definition bindE :: "error + 'a \<Rightarrow> ('a \<Rightarrow> error + 'b) \<Rightarrow> error + 'b" where
  "bindE m f = (case m of Inl e \<Rightarrow> Inl e | Inr x \<Rightarrow> f x)"

text \<open>\<open>try: m except Exception: raise e\<close>\<close>

definition except_raise :: "error + 'a \<Rightarrow> error \<Rightarrow> error + 'a" where
  "except_raise m e = (case m of Inl _ \<Rightarrow> Inl e | Inr x \<Rightarrow> Inr x)"

text \<open>
  The handlers that close \<open>encrypt_message\<close> and \<open>decrypt_message\<close>:
  \<open>except (InvalidKeyError, InvalidMessageError): raise\<close> and then
  \<open>except Exception: raise EncryptionError\<close>.
\<close>

definition reraise_or_wrap :: "error + 'a \<Rightarrow> error + 'a" where
  "reraise_or_wrap m =
     (case m of
        Inl InvalidKeyError \<Rightarrow> Inl InvalidKeyError
      | Inl InvalidMessageError \<Rightarrow> Inl InvalidMessageError
      | Inl _ \<Rightarrow> Inl EncryptionError
      | Inr x \<Rightarrow> Inr x)"

section \<open>Text and byte codecs of the standard library\<close>

subsection \<open>UTF-8\<close>

text \<open>
  \<open>str.encode("utf-8")\<close>: one to four octets for each code point; a surrogate
  (U+D800 to U+DFFF) raises \<open>UnicodeEncodeError\<close>, which is \<open>None\<close> here. Python has
  no code point from \<open>0x110000\<close> on.
\<close>

definition utf8_encode_cp :: "nat \<Rightarrow> bytes option" where
  "utf8_encode_cp c =
     (if c < 0x80 then Some [of_nat c]
      else if c < 0x800 then Some [of_nat (0xC0 + c div 64), of_nat (0x80 + c mod 64)]
      else if 0xD800 \<le> c \<and> c < 0xE000 then None
      else if c < 0x10000 then
        Some [of_nat (0xE0 + c div 4096), of_nat (0x80 + c div 64 mod 64),
              of_nat (0x80 + c mod 64)]
      else if c < 0x110000 then
        Some [of_nat (0xF0 + c div 262144), of_nat (0x80 + c div 4096 mod 64),
              of_nat (0x80 + c div 64 mod 64), of_nat (0x80 + c mod 64)]
      else None)"

fun utf8_encode :: "pystr \<Rightarrow> bytes option" where
  "utf8_encode [] = Some []"
| "utf8_encode (c # cs) =
     (case utf8_encode_cp c of
        None \<Rightarrow> None
      | Some b \<Rightarrow> map_option ((@) b) (utf8_encode cs))"

text \<open>
  \<open>bytes.decode("utf-8")\<close>, strict: a lead octet announces the length, the following
  octets are continuation octets (\<open>0x80\<close> to \<open>0xBF\<close>), and overlong forms, surrogates
  and values from \<open>0x110000\<close> on are refused (\<open>UnicodeDecodeError\<close>, \<open>None\<close> here).
\<close>

definition is_cont :: "byte \<Rightarrow> bool" where
  "is_cont b \<longleftrightarrow> 0x80 \<le> unat b \<and> unat b < 0xC0"

definition cont_bits :: "byte \<Rightarrow> nat" where
  "cont_bits b = unat b - 0x80"

fun utf8_decode :: "bytes \<Rightarrow> pystr option" where
  "utf8_decode [] = Some []"
| "utf8_decode (b0 # bs) =
     (if unat b0 < 0x80 then map_option ((#) (unat b0)) (utf8_decode bs)
      else if unat b0 < 0xC0 then None
      else if unat b0 < 0xE0 then
        (case bs of
           b1 # r \<Rightarrow>
             if is_cont b1 \<and> 0x80 \<le> (unat b0 - 0xC0) * 64 + cont_bits b1
             then map_option ((#) ((unat b0 - 0xC0) * 64 + cont_bits b1)) (utf8_decode r)
             else None
         | _ \<Rightarrow> None)
      else if unat b0 < 0xF0 then
        (case bs of
           b1 # b2 # r \<Rightarrow>
             if is_cont b1 \<and> is_cont b2
                \<and> 0x800 \<le> (unat b0 - 0xE0) * 4096 + cont_bits b1 * 64 + cont_bits b2
                \<and> \<not> (0xD800 \<le> (unat b0 - 0xE0) * 4096 + cont_bits b1 * 64 + cont_bits b2
                     \<and> (unat b0 - 0xE0) * 4096 + cont_bits b1 * 64 + cont_bits b2 < 0xE000)
             then map_option
                    ((#) ((unat b0 - 0xE0) * 4096 + cont_bits b1 * 64 + cont_bits b2))
                    (utf8_decode r)
             else None
         | _ \<Rightarrow> None)
      else if unat b0 < 0xF8 then
        (case bs of
           b1 # b2 # b3 # r \<Rightarrow>
             if is_cont b1 \<and> is_cont b2 \<and> is_cont b3
                \<and> 0x10000 \<le> (unat b0 - 0xF0) * 262144 + cont_bits b1 * 4096
                                + cont_bits b2 * 64 + cont_bits b3
                \<and> (unat b0 - 0xF0) * 262144 + cont_bits b1 * 4096
                     + cont_bits b2 * 64 + cont_bits b3 < 0x110000
             then map_option
                    ((#) ((unat b0 - 0xF0) * 262144 + cont_bits b1 * 4096
                          + cont_bits b2 * 64 + cont_bits b3))
                    (utf8_decode r)
             else None
         | _ \<Rightarrow> None)
      else None)"

text \<open>\<open>str.encode("ascii")\<close>, as \<open>base64.b64decode\<close> applies it to a \<open>str\<close> argument.\<close>

definition ascii_encode :: "pystr \<Rightarrow> bytes option" where
  "ascii_encode s = (if list_all (\<lambda>c. c < 128) s then Some (map of_nat s) else None)"

subsection \<open>Base64\<close>

text \<open>
  The alphabet of RFC 4648: \<open>A\<close> to \<open>Z\<close>, \<open>a\<close> to \<open>z\<close>, \<open>0\<close> to \<open>9\<close>, \<open>+\<close>, \<open>/\<close>, and
  \<open>=\<close> (61) as padding. \<open>b64char\<close> is the table of \<open>binascii.b2a_base64\<close>, \<open>b64val\<close>
  the table of \<open>binascii.a2b_base64\<close>.
\<close>

definition b64char :: "nat \<Rightarrow> byte" where
  "b64char n =
     of_nat (if n < 26 then 65 + n
             else if n < 52 then 71 + n
             else if n < 62 then n - 4
             else if n = 62 then 43
             else 47)"

definition b64val :: "byte \<Rightarrow> nat option" where
  "b64val c =
     (if 65 \<le> unat c \<and> unat c \<le> 90 then Some (unat c - 65)
      else if 97 \<le> unat c \<and> unat c \<le> 122 then Some (unat c - 71)
      else if 48 \<le> unat c \<and> unat c \<le> 57 then Some (unat c + 4)
      else if unat c = 43 then Some 62
      else if unat c = 47 then Some 63
      else None)"

text \<open>
  \<open>base64.b64encode\<close>: three octets give four characters; a last group of one or two
  octets is padded with \<open>=\<close>.
\<close>

fun b64encode :: "bytes \<Rightarrow> bytes" where
  "b64encode [] = []"
| "b64encode [a] =
     [b64char (unat a div 4), b64char (unat a mod 4 * 16), 61, 61]"
| "b64encode [a, b] =
     [b64char (unat a div 4), b64char (unat a mod 4 * 16 + unat b div 16),
      b64char (unat b mod 16 * 4), 61]"
| "b64encode (a # b # c # r) =
     [b64char (unat a div 4), b64char (unat a mod 4 * 16 + unat b div 16),
      b64char (unat b mod 16 * 4 + unat c div 64), b64char (unat c mod 64)]
     @ b64encode r"

text \<open>
  \<open>binascii.a2b_base64\<close> as \<open>base64.b64decode\<close> calls it (\<open>validate=False\<close>), after CPython
  3.11: \<open>quad_pos\<close> counts the characters of the current group, \<open>leftchar\<close> holds its
  pending bits and \<open>pads\<close> the \<open>=\<close> seen since the last data character. A character
  outside the alphabet is skipped. A \<open>=\<close> that completes a group of two or three data
  characters ends the decoding, and the rest of the input is not read; any other \<open>=\<close>
  is skipped. An unfinished group at the end of the input raises \<open>binascii.Error\<close>
  (\<open>None\<close> here).
\<close>

fun a2b_base64 :: "nat \<Rightarrow> nat \<Rightarrow> nat \<Rightarrow> bytes \<Rightarrow> bytes option" where
  "a2b_base64 quad_pos leftchar pads [] = (if quad_pos \<noteq> 0 then None else Some [])"
| "a2b_base64 quad_pos leftchar pads (c # cs) =
     (if c = 61 then
        (if quad_pos \<ge> 2 \<and> quad_pos + (pads + 1) \<ge> 4 then Some []
         else a2b_base64 quad_pos leftchar (if quad_pos \<ge> 2 then pads + 1 else pads) cs)
      else
        (case b64val c of
           None \<Rightarrow> a2b_base64 quad_pos leftchar pads cs
         | Some v \<Rightarrow>
             if quad_pos = 0 then a2b_base64 1 v 0 cs
             else if quad_pos = 1 then
               map_option ((#) (of_nat (leftchar * 4 + v div 16)))
                 (a2b_base64 2 (v mod 16) 0 cs)
             else if quad_pos = 2 then
               map_option ((#) (of_nat (leftchar * 16 + v div 4)))
                 (a2b_base64 3 (v mod 4) 0 cs)
             else
               map_option ((#) (of_nat (leftchar * 64 + v)))
                 (a2b_base64 0 0 0 cs)))"

definition b64decode :: "pystr \<Rightarrow> error + bytes" where
  "b64decode s =
     (case ascii_encode s of
        None \<Rightarrow> Inl ValueError
      | Some b \<Rightarrow>
          (case a2b_base64 0 0 0 b of
             None \<Rightarrow> Inl BinasciiError
           | Some d \<Rightarrow> Inr d))"

subsection \<open>Hexadecimal\<close>

text \<open>
  \<open>bytes.fromhex\<close>: two hexadecimal digits for each octet; ASCII whitespace is skipped
  before a pair, not inside one. Anything else raises \<open>ValueError\<close> (\<open>None\<close> here).
\<close>

definition isspace :: "nat \<Rightarrow> bool" where
  "isspace c \<longleftrightarrow> c = 32 \<or> (9 \<le> c \<and> c \<le> 13)"

definition hexval :: "nat \<Rightarrow> nat option" where
  "hexval c =
     (if 48 \<le> c \<and> c \<le> 57 then Some (c - 48)
      else if 97 \<le> c \<and> c \<le> 102 then Some (c - 87)
      else if 65 \<le> c \<and> c \<le> 70 then Some (c - 55)
      else None)"

fun fromhex :: "pystr \<Rightarrow> bytes option" where
  "fromhex [] = Some []"
| "fromhex (c # cs) =
     (if isspace c then fromhex cs
      else
        (case hexval c of
           None \<Rightarrow> None
         | Some hi \<Rightarrow>
             (case cs of
                [] \<Rightarrow> None
              | d # r \<Rightarrow>
                  (case hexval d of
                     None \<Rightarrow> None
                   | Some lo \<Rightarrow> map_option ((#) (of_nat (hi * 16 + lo))) (fromhex r)))))"

section \<open>PyNaCl\<close>

text \<open>
  The operating system's random source is an argument: an unbounded supply of octets.
  \<open>nacl.utils.random n\<close> takes the next \<open>n\<close> of them.
\<close>

type_synonym entropy = "nat \<Rightarrow> byte"

definition utils_random :: "nat \<Rightarrow> entropy \<Rightarrow> bytes \<times> entropy" where
  "utils_random n rng = (map rng [0..<n], \<lambda>i. rng (n + i))"

text \<open>
  The primitives of libsodium behind \<open>nacl.public\<close> are arguments of the model, as
  PyNaCl's bindings present them: the public key of a secret key
  (\<open>crypto_scalarmult_base sk\<close>), the shared key of a public and a secret key
  (\<open>crypto_box_beforenm pk sk\<close>, \<open>None\<close> when libsodium reports an error), sealing
  (\<open>crypto_box_afternm message nonce k\<close>) and opening
  (\<open>crypto_box_open_afternm ciphertext nonce k\<close>, \<open>None\<close> when the authentication
  fails).
\<close>

record nacl =
  crypto_scalarmult_base :: "bytes \<Rightarrow> bytes"
  crypto_box_beforenm :: "bytes \<Rightarrow> bytes \<Rightarrow> bytes option"
  crypto_box_afternm :: "bytes \<Rightarrow> bytes \<Rightarrow> bytes \<Rightarrow> bytes"
  crypto_box_open_afternm :: "bytes \<Rightarrow> bytes \<Rightarrow> bytes \<Rightarrow> bytes option"

abbreviation PublicKey_SIZE :: nat where "PublicKey_SIZE \<equiv> 32"
abbreviation PrivateKey_SIZE :: nat where "PrivateKey_SIZE \<equiv> 32"
abbreviation Box_NONCE_SIZE :: nat where "Box_NONCE_SIZE \<equiv> 24"

text \<open>\<open>nacl.public.PublicKey(b)\<close>: the octets, when there are 32 of them.\<close>

definition PublicKey :: "bytes \<Rightarrow> error + bytes" where
  "PublicKey b = (if length b \<noteq> PublicKey_SIZE then Inl ValueError else Inr b)"

text \<open>
  \<open>nacl.public.PrivateKey(b)\<close>: 32 octets, and the public key derived from them, itself
  built with \<open>PublicKey\<close>.
\<close>

record private_key =
  secret_bytes :: bytes
  public_key :: bytes

definition PrivateKey :: "nacl \<Rightarrow> bytes \<Rightarrow> error + private_key" where
  "PrivateKey P b =
     (if length b \<noteq> PrivateKey_SIZE then Inl TypeError
      else bindE (PublicKey (crypto_scalarmult_base P b))
             (\<lambda>pk. Inr \<lparr>secret_bytes = b, public_key = pk\<rparr>))"

definition PrivateKey_generate :: "nacl \<Rightarrow> entropy \<Rightarrow> (error + private_key) \<times> entropy" where
  "PrivateKey_generate P rng =
     (case utils_random PrivateKey_SIZE rng of (seed, rng') \<Rightarrow> (PrivateKey P seed, rng'))"

text \<open>
  \<open>nacl.public.Box(private_key, public_key)\<close> holds the shared key;
  \<open>Box.encrypt(plaintext, nonce)\<close> returns the nonce followed by the ciphertext;
  \<open>Box.decrypt(ciphertext, nonce)\<close> returns the plaintext. Both refuse a nonce that is
  not 24 octets long, and the bindings under them refuse a shared key that is not 32
  octets long.
\<close>

definition Box :: "nacl \<Rightarrow> private_key \<Rightarrow> bytes \<Rightarrow> error + bytes" where
  "Box P sk pk =
     (case crypto_box_beforenm P pk (secret_bytes sk) of
        None \<Rightarrow> Inl CryptoError
      | Some k \<Rightarrow> Inr k)"

definition Box_encrypt :: "nacl \<Rightarrow> bytes \<Rightarrow> bytes \<Rightarrow> bytes \<Rightarrow> error + bytes" where
  "Box_encrypt P k plaintext nonce =
     (if length nonce \<noteq> Box_NONCE_SIZE then Inl ValueError
      else if length k \<noteq> 32 then Inl ValueError
      else Inr (nonce @ crypto_box_afternm P plaintext nonce k))"

definition Box_decrypt :: "nacl \<Rightarrow> bytes \<Rightarrow> bytes \<Rightarrow> bytes \<Rightarrow> error + bytes" where
  "Box_decrypt P k ciphertext nonce =
     (if length nonce \<noteq> Box_NONCE_SIZE then Inl ValueError
      else if length k \<noteq> 32 then Inl ValueError
      else
        (case crypto_box_open_afternm P ciphertext nonce k of
           None \<Rightarrow> Inl CryptoError
         | Some m \<Rightarrow> Inr m))"

section \<open>The class \<open>Encryption\<close>\<close>

text \<open>
  A dictionary with string keys and string values. \<open>getitem d k\<close> is \<open>d[k]\<close>, which
  raises \<open>KeyError\<close> on a missing key.
\<close>

type_synonym pydict = "pystr \<rightharpoonup> pystr"

definition getitem :: "pydict \<Rightarrow> pystr \<Rightarrow> error + pystr" where
  "getitem d k = (case d k of None \<Rightarrow> Inl KeyError | Some v \<Rightarrow> Inr v)"

definition VERSION :: pystr where
  "VERSION = lit ''x25519-xsalsa20-poly1305''"

definition MAX_MESSAGE_LENGTH :: nat where
  "MAX_MESSAGE_LENGTH = 1024 * 1024"

text \<open>
  \<open>_validate_message\<close>. The arguments are strings by their type, so the \<open>isinstance\<close>
  test never fires. The length test encodes the message first, and the encoder's own
  exception is not caught here.
\<close>

definition validate_message :: "pystr \<Rightarrow> error + unit" where
  "validate_message msg =
     (case utf8_encode msg of
        None \<Rightarrow> Inl UnicodeError
      | Some b \<Rightarrow>
          if length b > MAX_MESSAGE_LENGTH then Inl InvalidMessageError
          else if msg = [] then Inl InvalidMessageError
          else Inr ())"

text \<open>\<open>_validate_public_key\<close>\<close>

definition validate_public_key :: "pystr \<Rightarrow> error + unit" where
  "validate_public_key key =
     (if key = [] then Inl InvalidKeyError
      else except_raise
             (bindE (b64decode key)
                (\<lambda>decoded_key.
                   if length decoded_key \<noteq> PublicKey_SIZE then Inl InvalidKeyError
                   else Inr ()))
             InvalidKeyError)"

text \<open>\<open>_encode_base64\<close> and \<open>_decode_base64\<close>\<close>

definition encode_base64 :: "bytes \<Rightarrow> error + pystr" where
  "encode_base64 data =
     except_raise
       (case utf8_decode (b64encode data) of None \<Rightarrow> Inl UnicodeError | Some s \<Rightarrow> Inr s)
       EncryptionError"

definition decode_base64 :: "pystr \<Rightarrow> error + bytes" where
  "decode_base64 data = except_raise (b64decode data) EncryptionError"

text \<open>
  \<open>encrypt_message\<close>: the body of its \<open>try\<close> block, then the two handlers. The result is
  the dictionary of the four fields of \<open>EncryptedMessage\<close>.
\<close>

definition encrypt_try :: "nacl \<Rightarrow> entropy \<Rightarrow> pystr \<Rightarrow> pystr \<Rightarrow> error + pydict" where
  "encrypt_try P rng receiver_public_key msg =
     bindE (validate_message msg) (\<lambda>_.
     bindE (validate_public_key receiver_public_key) (\<lambda>_.
     case PrivateKey_generate P rng of (generated, rng1) \<Rightarrow>
     bindE generated (\<lambda>ephemeral_keypair.
     bindE (b64decode receiver_public_key) (\<lambda>pub_key_bytes.
     bindE (PublicKey pub_key_bytes) (\<lambda>receiver_key.
     bindE (case utf8_encode msg of None \<Rightarrow> Inl UnicodeError | Some b \<Rightarrow> Inr b) (\<lambda>msg_bytes.
     case utils_random Box_NONCE_SIZE rng1 of (nonce, rng2) \<Rightarrow>
     bindE (Box P ephemeral_keypair receiver_key) (\<lambda>box.
     bindE (Box_encrypt P box msg_bytes nonce) (\<lambda>encrypted.
     bindE (encode_base64 nonce) (\<lambda>nonce_text.
     bindE (encode_base64 (public_key ephemeral_keypair)) (\<lambda>ephem_text.
     bindE (encode_base64 (drop 24 encrypted)) (\<lambda>ciphertext_text.
     Inr [lit ''version'' \<mapsto> VERSION,
          lit ''nonce'' \<mapsto> nonce_text,
          lit ''ephemPublicKey'' \<mapsto> ephem_text,
          lit ''ciphertext'' \<mapsto> ciphertext_text])))))))))))"

definition encrypt_message :: "nacl \<Rightarrow> entropy \<Rightarrow> pystr \<Rightarrow> pystr \<Rightarrow> error + pydict" where
  "encrypt_message P rng receiver_public_key msg =
     reraise_or_wrap (encrypt_try P rng receiver_public_key msg)"

text \<open>\<open>decrypt_message\<close>, in the same way.\<close>

definition required_fields :: "pystr list" where
  "required_fields = [lit ''version'', lit ''nonce'', lit ''ephemPublicKey'', lit ''ciphertext'']"

definition decrypt_try :: "nacl \<Rightarrow> pystr \<Rightarrow> pydict \<Rightarrow> error + pystr" where
  "decrypt_try P private_key encrypted_data =
     (if \<not> list_all (\<lambda>field. encrypted_data field \<noteq> None) required_fields
      then Inl InvalidMessageError
      else
     bindE (getitem encrypted_data (lit ''version'')) (\<lambda>version.
     if version \<noteq> VERSION then Inl InvalidMessageError
     else
     bindE (except_raise (bindE (decode_base64 private_key) (PrivateKey P)) InvalidKeyError)
       (\<lambda>receiver_private_key.
     bindE (except_raise
              (bindE (getitem encrypted_data (lit ''nonce'')) (\<lambda>nonce_text.
               bindE (decode_base64 nonce_text) (\<lambda>nonce.
               bindE (getitem encrypted_data (lit ''ephemPublicKey'')) (\<lambda>ephem_text.
               bindE (decode_base64 ephem_text) (\<lambda>ephem_bytes.
               bindE (PublicKey ephem_bytes) (\<lambda>ephem_public_key.
               bindE (getitem encrypted_data (lit ''ciphertext'')) (\<lambda>ciphertext_text.
               bindE (decode_base64 ciphertext_text) (\<lambda>ciphertext.
               Inr (nonce, ephem_public_key, ciphertext)))))))))
              InvalidMessageError)
       (\<lambda>(nonce, ephem_public_key, ciphertext).
     bindE (Box P receiver_private_key ephem_public_key) (\<lambda>box.
     bindE (Box_decrypt P box ciphertext nonce) (\<lambda>decrypted_message.
     case utf8_decode decrypted_message of
       None \<Rightarrow> Inl EncryptionError
     | Some s \<Rightarrow> Inr s))))))"

definition decrypt_message :: "nacl \<Rightarrow> pystr \<Rightarrow> pydict \<Rightarrow> error + pystr" where
  "decrypt_message P private_key encrypted_data =
     reraise_or_wrap (decrypt_try P private_key encrypted_data)"

text \<open>\<open>generate_key_pair\<close>\<close>

definition generate_key_pair :: "nacl \<Rightarrow> entropy \<Rightarrow> error + pydict" where
  "generate_key_pair P rng =
     except_raise
       (bindE (fst (PrivateKey_generate P rng)) (\<lambda>private_key.
        bindE (case utf8_decode (b64encode (secret_bytes private_key)) of
                 None \<Rightarrow> Inl UnicodeError | Some s \<Rightarrow> Inr s) (\<lambda>private_text.
        bindE (case utf8_decode (b64encode (public_key private_key)) of
                 None \<Rightarrow> Inl UnicodeError | Some s \<Rightarrow> Inr s) (\<lambda>public_text.
        Inr [lit ''privateKey'' \<mapsto> private_text, lit ''publicKey'' \<mapsto> public_text]))))
       EncryptionError"

text \<open>\<open>get_public_key\<close>\<close>

definition get_public_key :: "nacl \<Rightarrow> pystr \<Rightarrow> error + pystr" where
  "get_public_key P private_key =
     except_raise
       (bindE (b64decode private_key) (\<lambda>priv_key_bytes.
        bindE (PrivateKey P priv_key_bytes) (\<lambda>private_key_obj.
        case utf8_decode (b64encode (public_key private_key_obj)) of
          None \<Rightarrow> Inl UnicodeError
        | Some s \<Rightarrow> Inr s)))
       InvalidKeyError"

text \<open>
  \<open>validate_encrypted_message_format\<close>. The argument is a dictionary of strings by its
  type, so neither \<open>isinstance\<close> test fires; what is left is the test for missing
  fields and the test for empty ones.
\<close>

definition validate_encrypted_message_format :: "pydict \<Rightarrow> error + unit" where
  "validate_encrypted_message_format encrypted_data =
     (if filter (\<lambda>field. encrypted_data field = None) required_fields \<noteq> []
      then Inl InvalidMessageError
      else if list_ex (\<lambda>field. encrypted_data field = Some []) required_fields
      then Inl InvalidMessageError
      else Inr ())"

text \<open>\<open>is_valid_key\<close>: any exception gives \<open>False\<close>.\<close>

definition is_valid_key :: "nacl \<Rightarrow> pystr \<Rightarrow> pystr \<Rightarrow> bool" where
  "is_valid_key P key key_type =
     (case bindE (b64decode key)
             (\<lambda>decoded_key.
                if key_type = lit ''public'' then Inr (length decoded_key = PublicKey_SIZE)
                else bindE (PrivateKey P decoded_key) (\<lambda>_. Inr True))
      of Inl _ \<Rightarrow> False | Inr r \<Rightarrow> r)"

text \<open>
  \<open>format_key\<close>: the key is a \<open>str\<close> or a \<open>bytes\<close> value, and the branch taken depends on
  which.
\<close>

datatype key_input = KeyStr pystr | KeyBytes bytes

definition format_key :: "key_input \<Rightarrow> pystr \<Rightarrow> error + pystr" where
  "format_key key input_encoding =
     except_raise
       (case key of
          KeyBytes b \<Rightarrow>
            if input_encoding = lit ''raw'' then
              (case utf8_decode (b64encode b) of None \<Rightarrow> Inl UnicodeError | Some s \<Rightarrow> Inr s)
            else Inl InvalidKeyError
        | KeyStr s \<Rightarrow>
            if input_encoding = lit ''base64'' then bindE (b64decode s) (\<lambda>_. Inr s)
            else if input_encoding = lit ''hex'' then
              (case fromhex s of
                 None \<Rightarrow> Inl ValueError
               | Some b \<Rightarrow>
                   (case utf8_decode (b64encode b) of
                      None \<Rightarrow> Inl UnicodeError
                    | Some t \<Rightarrow> Inr t))
            else Inl InvalidKeyError)
       InvalidKeyError"

section \<open>What the theorems ask of the primitives\<close>

text \<open>
  The properties of libsodium that the theorems below rest on, each on well-formed
  arguments only: a public key has 32 octets; both parties derive the same 32-octet
  shared key from their own secret key and the other's public key; a sealed message
  is 16 octets longer than the message; opening a sealed message under the same nonce
  and key gives the message back.
\<close>

definition public_key_size :: "nacl \<Rightarrow> bool" where
  "public_key_size P \<longleftrightarrow>
     (\<forall>sk. length sk = 32 \<longrightarrow> length (crypto_scalarmult_base P sk) = 32)"

definition key_agreement :: "nacl \<Rightarrow> bool" where
  "key_agreement P \<longleftrightarrow>
     (\<forall>a b. length a = 32 \<and> length b = 32 \<longrightarrow>
        (\<exists>k. length k = 32
           \<and> crypto_box_beforenm P (crypto_scalarmult_base P a) b = Some k
           \<and> crypto_box_beforenm P (crypto_scalarmult_base P b) a = Some k))"

definition seal_length :: "nacl \<Rightarrow> bool" where
  "seal_length P \<longleftrightarrow>
     (\<forall>m n k. length n = 24 \<and> length k = 32 \<longrightarrow>
        length (crypto_box_afternm P m n k) = length m + 16)"

definition box_opens_sealed :: "nacl \<Rightarrow> bool" where
  "box_opens_sealed P \<longleftrightarrow>
     (\<forall>m n k. length n = 24 \<and> length k = 32 \<longrightarrow>
        crypto_box_open_afternm P (crypto_box_afternm P m n k) n k = Some m)"

text \<open>
  An instance with these properties, small enough to run by hand, on which the
  theorems are exercised at concrete inputs: octet-wise arithmetic in place of the
  curve, and a tag made from the key and the nonce in front of the message. It has
  none of the security of the real primitives.
\<close>

definition sample_nacl :: nacl where
  "sample_nacl =
     \<lparr>crypto_scalarmult_base = map (\<lambda>x. 3 * x),
      crypto_box_beforenm =
        (\<lambda>pk sk. if length pk = 32 \<and> length sk = 32 then Some (map2 (*) pk sk) else None),
      crypto_box_afternm = (\<lambda>m n k. take 16 (map2 (+) k n) @ m),
      crypto_box_open_afternm =
        (\<lambda>c n k. if 16 \<le> length c \<and> take 16 c = take 16 (map2 (+) k n)
                  then Some (drop 16 c) else None)\<rparr>"

definition sample_entropy :: entropy where
  "sample_entropy i = of_nat (7 * i + 1)"

section \<open>Base64 text, as the specification uses the word\<close>

text \<open>
  The canonical form of RFC 4648: characters of the alphabet, then at most two \<open>=\<close>,
  a multiple of four characters in all.
\<close>

definition is_b64_alphabet :: "nat \<Rightarrow> bool" where
  "is_b64_alphabet c \<longleftrightarrow>
     (65 \<le> c \<and> c \<le> 90) \<or> (97 \<le> c \<and> c \<le> 122) \<or> (48 \<le> c \<and> c \<le> 57) \<or> c = 43 \<or> c = 47"

definition is_base64_text :: "pystr \<Rightarrow> bool" where
  "is_base64_text s \<longleftrightarrow>
     length s mod 4 = 0
     \<and> list_all is_b64_alphabet (takeWhile (\<lambda>c. c \<noteq> 61) s)
     \<and> (dropWhile (\<lambda>c. c \<noteq> 61) s = [] \<or> dropWhile (\<lambda>c. c \<noteq> 61) s = [61]
        \<or> dropWhile (\<lambda>c. c \<noteq> 61) s = [61, 61])"

section \<open>Lemmas on the codecs and the exception handlers\<close>

lemma unat_byte_of_nat: "n < 256 \<Longrightarrow> unat (of_nat n :: byte) = n"
  by (simp add: unat_of_nat)

lemma dec2:
  assumes "unat b0 = 0xC0 + h" "unat b1 = 0x80 + l" "h < 32" "l < 64" "0x80 \<le> h * 64 + l"
  shows "utf8_decode (b0 # b1 # r) = map_option ((#) (h * 64 + l)) (utf8_decode r)"
  using assms by (simp add: is_cont_def cont_bits_def)

lemma dec3:
  assumes "unat b0 = 0xE0 + h" "unat b1 = 0x80 + m" "unat b2 = 0x80 + l" "h < 16" "m < 64" "l < 64"
    "0x800 \<le> h * 4096 + m * 64 + l" "\<not> (0xD800 \<le> h * 4096 + m * 64 + l \<and> h * 4096 + m * 64 + l < 0xE000)"
  shows "utf8_decode (b0 # b1 # b2 # r) = map_option ((#) (h * 4096 + m * 64 + l)) (utf8_decode r)"
  using assms by (simp add: is_cont_def cont_bits_def)

lemma dec4:
  assumes "unat b0 = 0xF0 + h" "unat b1 = 0x80 + m" "unat b2 = 0x80 + k" "unat b3 = 0x80 + l"
    "h < 8" "m < 64" "k < 64" "l < 64"
    "0x10000 \<le> h * 262144 + m * 4096 + k * 64 + l" "h * 262144 + m * 4096 + k * 64 + l < 0x110000"
  shows "utf8_decode (b0 # b1 # b2 # b3 # r)
         = map_option ((#) (h * 262144 + m * 4096 + k * 64 + l)) (utf8_decode r)"
  using assms by (simp add: is_cont_def cont_bits_def)

lemma utf8_decode_encode_cp:
  assumes "utf8_encode_cp c = Some b"
  shows "utf8_decode (b @ r) = map_option ((#) c) (utf8_decode r)"
proof -
  consider (a) "c < 0x80" | (b) "0x80 \<le> c" "c < 0x800"
    | (c) "0x800 \<le> c" "c < 0x10000" "\<not> (0xD800 \<le> c \<and> c < 0xE000)"
    | (d) "0x10000 \<le> c" "c < 0x110000"
    using assms by (auto simp: utf8_encode_cp_def split: if_splits)
  then show ?thesis
  proof cases
    case a
    with assms have b: "b = [of_nat c]" by (simp add: utf8_encode_cp_def)
    from a have "unat (of_nat c :: byte) = c" by (simp add: unat_byte_of_nat)
    with a show ?thesis by (simp add: b)
  next
    case b
    with assms have bb: "b = [of_nat (0xC0 + c div 64), of_nat (0x80 + c mod 64)]"
      by (simp add: utf8_encode_cp_def)
    from b have lt: "c div 64 < 32" by simp
    from lt have u0: "unat (of_nat (0xC0 + c div 64) :: byte) = 0xC0 + c div 64"
      by (intro unat_byte_of_nat) simp
    have u1: "unat (of_nat (0x80 + c mod 64) :: byte) = 0x80 + c mod 64"
      by (intro unat_byte_of_nat) simp
    have e: "c div 64 * 64 + c mod 64 = c" by simp
    have "utf8_decode (of_nat (0xC0 + c div 64) # of_nat (0x80 + c mod 64) # r)
          = map_option ((#) (c div 64 * 64 + c mod 64)) (utf8_decode r)"
      using b by (intro dec2[OF u0 u1 lt]; (simp only: e)?; simp)
    then show ?thesis unfolding bb e by simp
  next
    case c
    with assms have bb: "b = [of_nat (0xE0 + c div 4096), of_nat (0x80 + c div 64 mod 64),
              of_nat (0x80 + c mod 64)]"
      by (simp add: utf8_encode_cp_def)
    from c have lt: "c div 4096 < 16" by simp
    from lt have u0: "unat (of_nat (0xE0 + c div 4096) :: byte) = 0xE0 + c div 4096"
      by (intro unat_byte_of_nat) simp
    have u1: "unat (of_nat (0x80 + c div 64 mod 64) :: byte) = 0x80 + c div 64 mod 64"
      by (intro unat_byte_of_nat) simp
    have u2: "unat (of_nat (0x80 + c mod 64) :: byte) = 0x80 + c mod 64"
      by (intro unat_byte_of_nat) simp
    have e: "c div 4096 * 4096 + c div 64 mod 64 * 64 + c mod 64 = c"
      using mod_mult2_eq[of c 64 64] div_mult_mod_eq[of c 4096] by simp
    have "utf8_decode (of_nat (0xE0 + c div 4096) # of_nat (0x80 + c div 64 mod 64)
              # of_nat (0x80 + c mod 64) # r)
          = map_option ((#) (c div 4096 * 4096 + c div 64 mod 64 * 64 + c mod 64)) (utf8_decode r)"
      using c by (intro dec3[OF u0 u1 u2 lt]; (simp only: e)?; simp)
    then show ?thesis unfolding bb e by simp
  next
    case d
    with assms have bb: "b = [of_nat (0xF0 + c div 262144), of_nat (0x80 + c div 4096 mod 64),
              of_nat (0x80 + c div 64 mod 64), of_nat (0x80 + c mod 64)]"
      by (simp add: utf8_encode_cp_def)
    from d have lt: "c div 262144 < 8" by simp
    from lt have u0: "unat (of_nat (0xF0 + c div 262144) :: byte) = 0xF0 + c div 262144"
      by (intro unat_byte_of_nat) simp
    have u1: "unat (of_nat (0x80 + c div 4096 mod 64) :: byte) = 0x80 + c div 4096 mod 64"
      by (intro unat_byte_of_nat) simp
    have u2: "unat (of_nat (0x80 + c div 64 mod 64) :: byte) = 0x80 + c div 64 mod 64"
      by (intro unat_byte_of_nat) simp
    have u3: "unat (of_nat (0x80 + c mod 64) :: byte) = 0x80 + c mod 64"
      by (intro unat_byte_of_nat) simp
    have e: "c div 262144 * 262144 + c div 4096 mod 64 * 4096 + c div 64 mod 64 * 64 + c mod 64 = c"
      using mod_mult2_eq[of c 64 64] mod_mult2_eq[of c 4096 64] div_mult_mod_eq[of c 262144]
      by simp
    have "utf8_decode (of_nat (0xF0 + c div 262144) # of_nat (0x80 + c div 4096 mod 64)
              # of_nat (0x80 + c div 64 mod 64) # of_nat (0x80 + c mod 64) # r)
          = map_option ((#) (c div 262144 * 262144 + c div 4096 mod 64 * 4096
                 + c div 64 mod 64 * 64 + c mod 64)) (utf8_decode r)"
      using d by (intro dec4[OF u0 u1 u2 u3 lt]; (simp only: e)?; simp)
    then show ?thesis unfolding bb e by simp
  qed
qed

lemma utf8_decode_encode: "utf8_encode s = Some b \<Longrightarrow> utf8_decode b = Some s"
proof (induction s arbitrary: b)
  case Nil
  then show ?case by simp
next
  case (Cons c s)
  then obtain b1 b2 where 1: "utf8_encode_cp c = Some b1" and 2: "utf8_encode s = Some b2"
    and b: "b = b1 @ b2"
    by (auto split: option.splits)
  show ?case unfolding b by (simp add: utf8_decode_encode_cp[OF 1] Cons.IH[OF 2])
qed

lemma utf8_decode_ascii:
  "list_all (\<lambda>b. unat b < 128) bs \<Longrightarrow> utf8_decode bs = Some (map unat bs)"
  by (induction bs) auto


lemma unat_byte_lt: "unat (a::byte) < 256"
  using unsigned_less[of a, where 'a=nat] by simp

lemma b64char_unat: "n < 64 \<Longrightarrow> unat (b64char n) =
     (if n < 26 then 65 + n else if n < 52 then 71 + n else if n < 62 then n - 4
      else if n = 62 then 43 else 47)"
  unfolding b64char_def by (rule unat_byte_of_nat) auto

lemma b64val_b64char: "n < 64 \<Longrightarrow> b64val (b64char n) = Some n"
  unfolding b64val_def by (auto simp: b64char_unat)

lemma b64char_unat_not_pad: "n < 64 \<Longrightarrow> unat (b64char n) \<noteq> 61"
  by (auto simp: b64char_unat split: if_splits)

lemma b64char_not_pad: "n < 64 \<Longrightarrow> b64char n \<noteq> 61"
  using b64char_unat_not_pad[of n] by auto

lemma b64char_ascii: "n < 64 \<Longrightarrow> unat (b64char n) < 128"
  by (auto simp: b64char_unat)

lemma b64char_alphabet: "n < 64 \<Longrightarrow> is_b64_alphabet (unat (b64char n))"
  by (auto simp: b64char_unat is_b64_alphabet_def)

lemma a2b_quad:
  assumes "s0 < 64" "s1 < 64" "s2 < 64" "s3 < 64"
  shows "a2b_base64 0 0 0 (b64char s0 # b64char s1 # b64char s2 # b64char s3 # r)
         = map_option (\<lambda>d. of_nat (s0 * 4 + s1 div 16) # of_nat (s1 mod 16 * 16 + s2 div 4)
               # of_nat (s2 mod 4 * 64 + s3) # d) (a2b_base64 0 0 0 r)"
  using assms by (simp add: b64val_b64char b64char_not_pad option.map_comp comp_def)

lemma sextets:
  "unat (a::byte) div 4 < 64" "unat (a::byte) mod 4 * 16 < 64"
  "unat (a::byte) mod 4 * 16 + unat (b::byte) div 16 < 64"
  "unat (b::byte) mod 16 * 4 < 64"
  "unat (b::byte) mod 16 * 4 + unat (c::byte) div 64 < 64"
  "unat (c::byte) mod 64 < 64"
  using unat_byte_lt[of a] unat_byte_lt[of b] unat_byte_lt[of c] by auto

lemma a2b_base64_b64encode: "a2b_base64 0 0 0 (b64encode bs) = Some bs"
proof (induction bs rule: b64encode.induct)
  case 1
  then show ?case by simp
next
  case (2 a)
  have "(of_nat (unat a div 4 * 4 + unat a mod 4 * 16 div 16) :: byte) = a" by simp
  then show ?case by (simp add: b64val_b64char b64char_not_pad sextets)
next
  case (3 a b)
  have "(of_nat (unat a div 4 * 4 + (unat a mod 4 * 16 + unat b div 16) div 16) :: byte) = a"
    using unat_byte_lt[of b] by simp
  moreover have "(of_nat ((unat a mod 4 * 16 + unat b div 16) mod 16 * 16 + unat b mod 16 * 4 div 4) :: byte) = b"
    using unat_byte_lt[of b] by simp
  ultimately show ?case by (simp add: b64val_b64char b64char_not_pad sextets)
next
  case (4 a b c r)
  have A: "(of_nat (unat a div 4 * 4 + (unat a mod 4 * 16 + unat b div 16) div 16) :: byte) = a"
    using unat_byte_lt[of b] by simp
  have B: "(of_nat ((unat a mod 4 * 16 + unat b div 16) mod 16 * 16 + (unat b mod 16 * 4 + unat c div 64) div 4) :: byte) = b"
    using unat_byte_lt[of b] unat_byte_lt[of c] by simp
  have C: "(of_nat ((unat b mod 16 * 4 + unat c div 64) mod 4 * 64 + unat c mod 64) :: byte) = c"
    using unat_byte_lt[of c] by simp
  show ?case
    by (simp only: b64encode.simps append.simps "4.IH" A B C option.map
          a2b_quad[OF sextets(1) sextets(3) sextets(5) sextets(6)])
qed

lemma b64encode_ascii: "list_all (\<lambda>b. unat b < 128) (b64encode bs)"
  by (induction bs rule: b64encode.induct) (simp_all add: b64char_ascii sextets)

lemma b64encode_text: "utf8_decode (b64encode bs) = Some (map unat (b64encode bs))"
  by (rule utf8_decode_ascii) (rule b64encode_ascii)

lemma ascii_encode_map_unat:
  "list_all (\<lambda>b. unat b < 128) bs \<Longrightarrow> ascii_encode (map unat bs) = Some bs"
  by (simp add: ascii_encode_def list_all_iff comp_def)

lemma b64decode_b64encode: "b64decode (map unat (b64encode bs)) = Inr bs"
  by (simp add: b64decode_def ascii_encode_map_unat[OF b64encode_ascii] a2b_base64_b64encode)

lemma length_b64encode_mod: "length (b64encode bs) mod 4 = 0"
  by (induction bs rule: b64encode.induct) simp_all

lemma b64encode_base64_text: "is_base64_text (map unat (b64encode bs))"
proof -
  have "list_all is_b64_alphabet (takeWhile (\<lambda>c. c \<noteq> 61) (map unat (b64encode bs)))
      \<and> (dropWhile (\<lambda>c. c \<noteq> 61) (map unat (b64encode bs)) = []
         \<or> dropWhile (\<lambda>c. c \<noteq> 61) (map unat (b64encode bs)) = [61]
         \<or> dropWhile (\<lambda>c. c \<noteq> 61) (map unat (b64encode bs)) = [61, 61])"
  proof (induction bs rule: b64encode.induct)
    case 1
    then show ?case by simp
  next
    case (2 a)
    then show ?case by (simp add: b64char_alphabet b64char_unat_not_pad sextets)
  next
    case (3 a b)
    then show ?case by (simp add: b64char_alphabet b64char_unat_not_pad sextets)
  next
    case (4 a b c r)
    then show ?case by (simp add: b64char_alphabet b64char_unat_not_pad sextets)
  qed
  then show ?thesis by (simp add: is_base64_text_def length_b64encode_mod)
qed

lemma b64encode_eq_Nil: "b64encode bs = [] \<longleftrightarrow> bs = []"
  by (cases bs rule: b64encode.cases) simp_all

lemma encode_base64_eq: "encode_base64 bs = Inr (map unat (b64encode bs))"
  by (simp add: encode_base64_def b64encode_text except_raise_def)

lemma bindE_Inr [simp]: "bindE (Inr x) f = f x"
  by (simp add: bindE_def)

lemma bindE_Inl [simp]: "bindE (Inl e) f = Inl e"
  by (simp add: bindE_def)

lemma bindE_eq_Inr: "bindE m f = Inr y \<longleftrightarrow> (\<exists>x. m = Inr x \<and> f x = Inr y)"
  by (cases m) simp_all

lemma except_raise_Inr [simp]: "except_raise (Inr x) e = Inr x"
  by (simp add: except_raise_def)

lemma except_raise_Inl [simp]: "except_raise (Inl e') e = Inl e"
  by (simp add: except_raise_def)

lemma except_raise_eq_Inr: "except_raise m e = Inr x \<longleftrightarrow> m = Inr x"
  by (cases m) simp_all

lemma except_raise_eq_Inl: "except_raise m e = Inl e' \<longleftrightarrow> (\<exists>e0. m = Inl e0) \<and> e' = e"
  by (cases m) auto

lemma reraise_or_wrap_Inr [simp]: "reraise_or_wrap (Inr x) = Inr x"
  by (simp add: reraise_or_wrap_def)

lemma reraise_or_wrap_eq_Inr: "reraise_or_wrap m = Inr x \<longleftrightarrow> m = Inr x"
  by (auto simp: reraise_or_wrap_def split: sum.splits error.splits)

lemma reraise_or_wrap_Inl:
  "reraise_or_wrap (Inl e) =
     Inl (if e = InvalidKeyError \<or> e = InvalidMessageError then e else EncryptionError)"
  by (cases e) (simp_all add: reraise_or_wrap_def)

lemma length_utils_random [simp]: "length (fst (utils_random n rng)) = n"
  by (simp add: utils_random_def)

section \<open>Message validation\<close>

lemma utf8_encode_ascii_replicate:
  "c < 128 \<Longrightarrow> utf8_encode (replicate n c) = Some (replicate n (of_nat c))"
  by (induction n) (simp_all add: utf8_encode_cp_def)

lemma validate_message_cases:
  "validate_message msg =
     (case utf8_encode msg of
        None \<Rightarrow> Inl UnicodeError
      | Some b \<Rightarrow> if MAX_MESSAGE_LENGTH < length b \<or> msg = [] then Inl InvalidMessageError
                  else Inr ())"
  by (simp add: validate_message_def split: option.splits)

lemma encrypt_message_InvalidMessage_iff:
  "encrypt_message P rng receiver_public_key msg = Inl InvalidMessageError
   \<longleftrightarrow> validate_message msg = Inl InvalidMessageError"
proof (cases "validate_message msg")
  case (Inl e)
  then show ?thesis
    by (cases e) (simp_all add: encrypt_message_def encrypt_try_def reraise_or_wrap_def)
next
  case (Inr u)
  have "encrypt_try P rng receiver_public_key msg \<noteq> Inl InvalidMessageError"
    unfolding encrypt_try_def Inr
    by (auto simp: validate_public_key_def PrivateKey_generate_def PrivateKey_def PublicKey_def
          Box_def Box_encrypt_def b64decode_def encode_base64_eq
          bindE_def except_raise_def
          split: sum.splits option.splits if_splits prod.splits)
  then show ?thesis
    by (auto simp: encrypt_message_def reraise_or_wrap_def Inr split: sum.splits error.splits)
qed

text \<open>
  Claim C5. A message whose UTF-8 encoding has exactly 1,048,576 octets passes
  \<open>_validate_message\<close>; one of 1,048,577 octets or more is refused with
  \<open>InvalidMessageError\<close>, and so is the empty message. \<open>encrypt_message\<close> raises
  \<open>InvalidMessageError\<close> in exactly these cases, whatever the receiver's key, the
  primitives and the random source are: the message is judged before any of them is
  used.
\<close>

theorem message_length_boundary:
  assumes "utf8_encode msg = Some b"
  shows "(length b = 1048576 \<longrightarrow> validate_message msg = Inr ())
       \<and> (1048577 \<le> length b \<longrightarrow> validate_message msg = Inl InvalidMessageError)
       \<and> validate_message [] = Inl InvalidMessageError
       \<and> (encrypt_message P rng receiver_public_key msg = Inl InvalidMessageError
            \<longleftrightarrow> msg = [] \<or> 1048576 < length b)"
proof -
  have "length b = 1048576 \<Longrightarrow> msg \<noteq> []" using assms by auto
  then show ?thesis
    using assms
    by (auto simp: encrypt_message_InvalidMessage_iff validate_message_cases MAX_MESSAGE_LENGTH_def)
qed

theorem message_length_boundary_witness:
  "validate_message (replicate 1048576 97) = Inr ()
   \<and> validate_message (replicate 1048577 97) = Inl InvalidMessageError
   \<and> validate_message [] = Inl InvalidMessageError
   \<and> encrypt_message sample_nacl sample_entropy (lit ''AAAA'') (replicate 1048577 97)
       = Inl InvalidMessageError
   \<and> encrypt_message sample_nacl sample_entropy (lit ''AAAA'') (replicate 1048576 97)
       \<noteq> Inl InvalidMessageError"
proof -
  have e1: "utf8_encode (replicate 1048576 97) = Some (replicate 1048576 (of_nat 97))"
    by (rule utf8_encode_ascii_replicate) simp
  have e2: "utf8_encode (replicate 1048577 97) = Some (replicate 1048577 (of_nat 97))"
    by (rule utf8_encode_ascii_replicate) simp
  have n1: "replicate 1048576 (97::nat) \<noteq> []"
    unfolding replicate_empty by simp
  have n2: "replicate 1048577 (97::nat) \<noteq> []"
    unfolding replicate_empty by simp
  show ?thesis
    using message_length_boundary[OF e1, of sample_nacl sample_entropy "lit ''AAAA''"]
      message_length_boundary[OF e2, of sample_nacl sample_entropy "lit ''AAAA''"] n1 n2
    by (simp only: length_replicate) simp
qed

section \<open>The version gate\<close>

text \<open>
  Claim C7. An envelope whose \<open>version\<close> field is present and differs from
  \<open>x25519-xsalsa20-poly1305\<close> is refused by \<open>decrypt_message\<close> with
  \<open>InvalidMessageError\<close>, whatever the private key and the primitives are: neither the
  key nor a primitive is looked at before the refusal.
\<close>

theorem version_gate:
  assumes "encrypted_data (lit ''version'') = Some v" and "v \<noteq> VERSION"
  shows "decrypt_message P private_key encrypted_data = Inl InvalidMessageError"
  using assms
  by (simp add: decrypt_message_def decrypt_try_def getitem_def reraise_or_wrap_def)

theorem version_gate_witness:
  "decrypt_message sample_nacl (lit ''no key at all'')
     [lit ''version'' \<mapsto> lit ''x25519-xsalsa20-poly1305-v2'', lit ''nonce'' \<mapsto> lit ''AAAA'',
      lit ''ephemPublicKey'' \<mapsto> lit ''AAAA'', lit ''ciphertext'' \<mapsto> lit ''AAAA'']
   = Inl InvalidMessageError"
  by (rule version_gate[where v = "lit ''x25519-xsalsa20-poly1305-v2''"])
     (simp_all add: lit_def VERSION_def)

section \<open>What \<open>encrypt_message\<close> and \<open>decrypt_message\<close> compute\<close>

lemma utils_random_eq:
  "utils_random n rng = (map rng [0..<n], \<lambda>i. rng (n + i))"
  by (simp add: utils_random_def)

lemma PrivateKey_cases:
  "PrivateKey P b =
     (if length b = 32 \<and> length (crypto_scalarmult_base P b) = 32
      then Inr \<lparr>secret_bytes = b, public_key = crypto_scalarmult_base P b\<rparr>
      else if length b = 32 then Inl ValueError else Inl TypeError)"
  by (simp add: PrivateKey_def PublicKey_def)

lemma validate_public_key_cases:
  "validate_public_key key =
     (if key = [] then Inl InvalidKeyError
      else
        (case b64decode key of
           Inl _ \<Rightarrow> Inl InvalidKeyError
         | Inr pk \<Rightarrow> if length pk \<noteq> 32 then Inl InvalidKeyError else Inr ()))"
  by (cases "b64decode key") (simp_all add: validate_public_key_def)

lemma encrypt_message_unfold:
  "encrypt_message P rng receiver_public_key msg =
     (case utf8_encode msg of
        None \<Rightarrow> Inl EncryptionError
      | Some b \<Rightarrow>
          if MAX_MESSAGE_LENGTH < length b \<or> msg = [] then Inl InvalidMessageError
          else if receiver_public_key = [] then Inl InvalidKeyError
          else
            (case b64decode receiver_public_key of
               Inl _ \<Rightarrow> Inl InvalidKeyError
             | Inr pk \<Rightarrow>
                 if length pk \<noteq> 32 then Inl InvalidKeyError
                 else if length (crypto_scalarmult_base P (map rng [0..<32])) \<noteq> 32
                 then Inl EncryptionError
                 else
                   (case crypto_box_beforenm P pk (map rng [0..<32]) of
                      None \<Rightarrow> Inl EncryptionError
                    | Some k \<Rightarrow>
                        if length k \<noteq> 32 then Inl EncryptionError
                        else
                          Inr [lit ''version'' \<mapsto> VERSION,
                               lit ''nonce'' \<mapsto>
                                 map unat (b64encode (map (\<lambda>i. rng (32 + i)) [0..<24])),
                               lit ''ephemPublicKey'' \<mapsto>
                                 map unat (b64encode
                                   (crypto_scalarmult_base P (map rng [0..<32]))),
                               lit ''ciphertext'' \<mapsto>
                                 map unat (b64encode
                                   (crypto_box_afternm P b
                                      (map (\<lambda>i. rng (32 + i)) [0..<24]) k))])))"
proof (cases "utf8_encode msg")
  case None
  then show ?thesis
    by (simp add: encrypt_message_def encrypt_try_def validate_message_def reraise_or_wrap_def)
next
  case b: (Some b)
  show ?thesis
  proof (cases "MAX_MESSAGE_LENGTH < length b \<or> msg = []")
    case True
    then show ?thesis
      by (auto simp: encrypt_message_def encrypt_try_def validate_message_def b
            reraise_or_wrap_def)
  next
    case ok: False
    then have vm: "validate_message msg = Inr ()"
      by (simp add: validate_message_def b)
    show ?thesis
    proof (cases "validate_public_key receiver_public_key")
      case (Inl e)
      then have e: "e = InvalidKeyError"
        by (auto simp: validate_public_key_cases split: if_splits sum.splits)
      from Inl show ?thesis
        unfolding encrypt_message_def encrypt_try_def vm
        using ok
        by (auto simp: b e reraise_or_wrap_def validate_public_key_cases
              split: if_splits sum.splits)
    next
      case (Inr u)
      then obtain pk where pk: "b64decode receiver_public_key = Inr pk" "length pk = 32"
        "receiver_public_key \<noteq> []"
        by (auto simp: validate_public_key_cases split: if_splits sum.splits)
      show ?thesis
        unfolding encrypt_message_def encrypt_try_def vm Inr
        using ok
        by (simp add: b pk PrivateKey_generate_def utils_random_eq PrivateKey_cases
              PublicKey_def Box_def Box_encrypt_def encode_base64_eq reraise_or_wrap_def
              split: option.splits)
    qed
  qed
qed

lemma decrypt_message_unfold:
  assumes "d (lit ''version'') = Some VERSION" "d (lit ''nonce'') = Some nonce_text"
    "d (lit ''ephemPublicKey'') = Some ephem_text" "d (lit ''ciphertext'') = Some ciphertext_text"
  shows "decrypt_message P private_key d =
     (case bindE (b64decode private_key) (PrivateKey P) of
        Inl _ \<Rightarrow> Inl InvalidKeyError
      | Inr receiver \<Rightarrow>
          (case b64decode nonce_text of
             Inl _ \<Rightarrow> Inl InvalidMessageError
           | Inr nonce \<Rightarrow>
               (case b64decode ephem_text of
                  Inl _ \<Rightarrow> Inl InvalidMessageError
                | Inr ephem \<Rightarrow>
                    if length ephem \<noteq> 32 then Inl InvalidMessageError
                    else
                      (case b64decode ciphertext_text of
                         Inl _ \<Rightarrow> Inl InvalidMessageError
                       | Inr ciphertext \<Rightarrow>
                           (case crypto_box_beforenm P ephem (secret_bytes receiver) of
                              None \<Rightarrow> Inl EncryptionError
                            | Some k \<Rightarrow>
                                if length nonce \<noteq> 24 \<or> length k \<noteq> 32 then Inl EncryptionError
                                else
                                  (case crypto_box_open_afternm P ciphertext nonce k of
                                     None \<Rightarrow> Inl EncryptionError
                                   | Some m \<Rightarrow>
                                       (case utf8_decode m of
                                          None \<Rightarrow> Inl EncryptionError
                                        | Some s \<Rightarrow> Inr s)))))))"
proof -
  have key: "except_raise (bindE (decode_base64 private_key) (PrivateKey P)) InvalidKeyError
     = (case bindE (b64decode private_key) (PrivateKey P) of
          Inl _ \<Rightarrow> Inl InvalidKeyError | Inr r \<Rightarrow> Inr r)"
    by (cases "b64decode private_key")
       (simp_all add: decode_base64_def except_raise_def split: sum.splits)
  have start: "decrypt_message P private_key d =
     reraise_or_wrap
      (bindE (except_raise (bindE (decode_base64 private_key) (PrivateKey P)) InvalidKeyError)
       (\<lambda>receiver_private_key.
     bindE (except_raise
              (bindE (decode_base64 nonce_text) (\<lambda>nonce.
               bindE (decode_base64 ephem_text) (\<lambda>ephem_bytes.
               bindE (PublicKey ephem_bytes) (\<lambda>ephem_public_key.
               bindE (decode_base64 ciphertext_text) (\<lambda>ciphertext.
               Inr (nonce, ephem_public_key, ciphertext))))))
              InvalidMessageError)
       (\<lambda>(nonce, ephem_public_key, ciphertext).
     bindE (Box P receiver_private_key ephem_public_key) (\<lambda>box.
     bindE (Box_decrypt P box ciphertext nonce) (\<lambda>decrypted_message.
     case utf8_decode decrypted_message of
       None \<Rightarrow> Inl EncryptionError
     | Some s \<Rightarrow> Inr s)))))"
    using assms
    by (simp add: decrypt_message_def decrypt_try_def required_fields_def getitem_def)
  show ?thesis
  proof (cases "bindE (b64decode private_key) (PrivateKey P)")
    case (Inl e)
    then show ?thesis unfolding start key by (simp add: reraise_or_wrap_def)
  next
    case receiver: (Inr receiver)
    show ?thesis
    proof (cases "b64decode nonce_text")
      case (Inl e)
      then show ?thesis
        unfolding start key receiver
        by (simp add: decode_base64_def reraise_or_wrap_def)
    next
      case nonce: (Inr nonce)
      show ?thesis
      proof (cases "b64decode ephem_text")
        case (Inl e)
        then show ?thesis
          unfolding start key receiver
          by (simp add: nonce decode_base64_def reraise_or_wrap_def)
      next
        case ephem: (Inr ephem)
        show ?thesis
        proof (cases "length ephem = 32")
          case False
          then show ?thesis
            unfolding start key receiver
            by (simp add: nonce ephem decode_base64_def PublicKey_def reraise_or_wrap_def)
        next
          case len: True
          show ?thesis
          proof (cases "b64decode ciphertext_text")
            case (Inl e)
            then show ?thesis
              unfolding start key receiver
              by (simp add: nonce ephem len decode_base64_def PublicKey_def
                    reraise_or_wrap_def)
          next
            case ciphertext: (Inr ciphertext)
            show ?thesis
              unfolding start key receiver
              by (simp add: nonce ephem len ciphertext decode_base64_def
                    PublicKey_def Box_def Box_decrypt_def reraise_or_wrap_def
                    split: option.splits)
          qed
        qed
      qed
    qed
  qed
qed

end
